theory Spec2Isabelle
  imports Main
begin

section \<open>The shared bounded buffer: \<open>publishing_queue::queue\<close>\<close>

text \<open>
  \<^verbatim>\<open>struct queue { std::mutex mtx; size_t capacity; std::vector<T> buf;
                  std::condition_variable cv; ... }\<close>

  Every member function takes \<open>mtx\<close> for its whole body, so the calls on one queue are
  serialised and each is a function from the queue before the call to the queue after it.
  \<open>capacity\<close> and \<open>buf.size()\<close> are \<open>size_t\<close>; the code only compares them and takes
  their minimum, nothing is added or subtracted, so they are natural numbers here.
  The condition variable is represented by the number of \<open>cv.notify_all()\<close> calls made
  on it so far.
\<close>

record 'a queue =
  capacity :: nat
  buf :: "'a list"
  notify_all_calls :: nat

datatype error = AssertionFailed | LengthError | BadAlloc

text \<open>
  \<^verbatim>\<open>explicit queue(size_t capacity) : capacity(capacity) { buf.reserve(capacity); }\<close>

  The constructor stores the capacity and reserves storage; it does not look at the
  capacity itself. \<open>std::vector::reserve\<close> on the fresh, empty vector has two failing
  paths, and an exception leaving the constructor means that no queue is constructed:
  \<^item> it throws \<open>std::length_error\<close> when the capacity exceeds \<open>buf.max_size()\<close>, a constant
    of the standard library implementation and the element type, the first parameter;
  \<^item> otherwise, when the capacity is positive, it allocates storage, and the allocation
    throws \<open>std::bad_alloc\<close> when it fails; whether the allocator has the storage is the
    second parameter. With capacity 0 nothing is allocated.
\<close>

definition queue_ctor :: "nat \<Rightarrow> bool \<Rightarrow> nat \<Rightarrow> error + 'a queue" where
  "queue_ctor max_size alloc_ok cap =
     (if cap > max_size then Inl LengthError
      else if cap > 0 \<and> \<not> alloc_ok then Inl BadAlloc
      else Inr \<lparr>capacity = cap, buf = [], notify_all_calls = 0\<rparr>)"

text \<open>
  \<open>queue::try_push\<close>: the pair returned is \<open>(added, do_notify)\<close>.
\<close>

definition try_push :: "'a queue \<Rightarrow> 'a \<Rightarrow> (bool \<times> bool) \<times> 'a queue" where
  "try_push q v =
     (if buf q = [] then ((True, True), q\<lparr>buf := buf q @ [v]\<rparr>)
      else if length (buf q) < capacity q then ((True, False), q\<lparr>buf := buf q @ [v]\<rparr>)
      else ((False, False), q))"

text \<open>
  The part of \<open>publishing_queue_backend::pull\<close> that runs on the shared queue under its
  lock (the specification's \<open>drain_up_to\<close>):
  \<^verbatim>\<open>if (auto m = std::min(n, src_buf.size()); m > 0) {
       this->append_to_buf(src_buf.begin(), src_buf.begin() + m);
       src_buf.erase(src_buf.begin(), src_buf.begin() + m);
       queue_->cv.notify_all();
     }\<close>
  The first component is the range handed to \<open>append_to_buf\<close> (nothing when \<open>m = 0\<close>).
\<close>

definition drain_up_to :: "'a queue \<Rightarrow> nat \<Rightarrow> 'a list \<times> 'a queue" where
  "drain_up_to q n =
     (let m = min n (length (buf q)) in
      if m > 0
      then (take m (buf q),
            q\<lparr>buf := drop m (buf q), notify_all_calls := Suc (notify_all_calls q)\<rparr>)
      else ([], q))"

text \<open>
  \<open>queue::push\<close> waits on the condition variable while the buffer is full. During a
  wait the lock is released and other threads call into the queue: the consumer drains
  (\<open>Drained n\<close>), other producers push (\<open>Pushed v\<close>). The third argument of \<open>push\<close> lists,
  for each time the waiting thread wakes up, what the other threads did to the queue
  since it went to sleep (nothing for a spurious wake-up). When the list is used up the
  thread is never woken again and the call does not return: \<open>None\<close>.
\<close>

datatype 'a interference = Drained nat | Pushed 'a

fun interfere :: "'a queue \<Rightarrow> 'a interference \<Rightarrow> 'a queue" where
  "interfere q (Drained n) = snd (drain_up_to q n)"
| "interfere q (Pushed v) = snd (try_push q v)"

fun push :: "'a queue \<Rightarrow> 'a \<Rightarrow> 'a interference list list \<Rightarrow> (bool \<times> 'a queue) option" where
  "push q v wakeups =
     (if buf q = [] then Some (True, q\<lparr>buf := buf q @ [v]\<rparr>)
      else if length (buf q) < capacity q then Some (False, q\<lparr>buf := buf q @ [v]\<rparr>)
      else (case wakeups of
              [] \<Rightarrow> None
            | w # ws \<Rightarrow> push (foldl interfere q w) v ws))"

declare push.simps [simp del]

section \<open>The producer handle: \<open>publishing_queue\<close>\<close>

text \<open>
  \<open>queue_ref\<close> is the queue that the member \<^verbatim>\<open>queue_\<close> points to; \<open>notify_events\<close> counts the
  calls of \<open>notify_hdl_.notify_event()\<close> made through this handle.
\<close>

record 'a publishing_queue =
  queue_ref :: "'a queue"
  notify_events :: nat

definition notify_event :: "'a publishing_queue \<Rightarrow> 'a publishing_queue" where
  "notify_event pq = pq\<lparr>notify_events := Suc (notify_events pq)\<rparr>"

definition publishing_queue_try_push ::
    "'a publishing_queue \<Rightarrow> 'a \<Rightarrow> bool \<times> 'a publishing_queue" where
  "publishing_queue_try_push pq v =
     (case try_push (queue_ref pq) v of
        ((added, do_notify), q') \<Rightarrow>
          (added, if do_notify then notify_event (pq\<lparr>queue_ref := q'\<rparr>) else pq\<lparr>queue_ref := q'\<rparr>))"

definition publishing_queue_push ::
    "'a publishing_queue \<Rightarrow> 'a \<Rightarrow> 'a interference list list \<Rightarrow> 'a publishing_queue option" where
  "publishing_queue_push pq v wakeups =
     (case push (queue_ref pq) v wakeups of
        None \<Rightarrow> None
      | Some (do_notify, q') \<Rightarrow>
          Some (if do_notify then notify_event (pq\<lparr>queue_ref := q'\<rparr>) else pq\<lparr>queue_ref := q'\<rparr>))"

section \<open>The consumer adapter: \<open>publishing_queue_backend\<close>\<close>

text \<open>
  The adapter derives from \<open>flow::buffered_observable_impl<T>\<close>, which is not part of the
  sources at hand. Its state is kept in the same record as the adapter's own member:
  \<^item> \<open>backend_queue\<close>: the queue that the member \<^verbatim>\<open>queue_\<close> points to;
  \<^item> \<open>out_buf\<close>: the base's outgoing buffer, the target of \<open>append_to_buf\<close>;
  \<^item> \<open>pull_calls\<close>: how often \<open>pull\<close> has been entered (bookkeeping of the model);
  \<^item> \<open>requested\<close>, \<open>delivered\<close>, \<open>phase\<close>: the base's outstanding demand, what it has
    emitted downstream, and its life-cycle state, as the specification describes them.
\<close>

text \<open>
  Modelled from the spec: the life-cycle of the adapter, which the base class keeps and
  the sources at hand do not show. The specification names the states active, draining
  (closed by the producer, items still to be delivered), completed and aborted with a
  reason.
\<close>

datatype 'e phase = Active | Draining | Terminal_Completed | Terminal_Aborted 'e

record ('a, 'e) publishing_queue_backend =
  backend_queue :: "'a queue"
  out_buf :: "'a list"
  pull_calls :: nat
  requested :: nat
  delivered :: "'a list"
  phase :: "'e phase"

text \<open>
  \<open>publishing_queue_backend::pull\<close>. \<open>CAF_ASSERT\<close> is defined outside the sources at hand;
  it checks its condition only in builds with runtime checks, which is the first
  parameter. A failed assertion ends the program: \<open>Inl AssertionFailed\<close>.
\<close>

definition pull ::
    "bool \<Rightarrow> ('a, 'e) publishing_queue_backend \<Rightarrow> nat \<Rightarrow> error + ('a, 'e) publishing_queue_backend" where
  "pull runtime_checks b n =
     (if runtime_checks \<and> \<not> n > 0 then Inl AssertionFailed
      else (case drain_up_to (backend_queue b) n of
              (items, q') \<Rightarrow>
                Inr (b\<lparr>backend_queue := q', out_buf := out_buf b @ items,
                       pull_calls := Suc (pull_calls b)\<rparr>)))"

text \<open>
  \<open>publishing_queue_backend::done\<close>. The first parameter is what \<open>super::done()\<close> returns.
\<close>

definition done_backend :: "bool \<Rightarrow> ('a, 'e) publishing_queue_backend \<Rightarrow> bool" where
  "done_backend super_done b =
     (if super_done then buf (backend_queue b) = [] else False)"

text \<open>
  Modelled from the spec: the terminal states are the completed and the aborted one.
\<close>

definition terminal :: "('a, 'e) publishing_queue_backend \<Rightarrow> bool" where
  "terminal b =
     (case phase b of Terminal_Completed \<Rightarrow> True | Terminal_Aborted _ \<Rightarrow> True | _ \<Rightarrow> False)"

text \<open>
  Modelled from the spec: \<open>buffered_observable_impl::abort\<close> is missing from the sources.
  The specification has it propagate termination with the reason, discard the items
  that are buffered but not delivered, and makes terminal states absorbing.
\<close>

definition abort ::
    "'e \<Rightarrow> ('a, 'e) publishing_queue_backend \<Rightarrow> ('a, 'e) publishing_queue_backend" where
  "abort reason b =
     (if terminal b then b else b\<lparr>phase := Terminal_Aborted reason, out_buf := []\<rparr>)"

text \<open>
  Modelled from the spec: the emission step of the base is missing from the sources. It
  hands staged items to the downstream observer, as many as there is outstanding demand.
\<close>

definition emit :: "('a, 'e) publishing_queue_backend \<Rightarrow> ('a, 'e) publishing_queue_backend" where
  "emit b =
     (let k = min (requested b) (length (out_buf b)) in
      b\<lparr>delivered := delivered b @ take k (out_buf b),
        out_buf := drop k (out_buf b),
        requested := requested b - k\<rparr>)"

text \<open>
  Modelled from the spec: the completion step of the base is missing from the sources.
  The specification has a closed adapter keep draining and complete only once \<open>done()\<close>
  holds, where the base considers itself finished when nothing is left staged.
\<close>

definition settle :: "('a, 'e) publishing_queue_backend \<Rightarrow> ('a, 'e) publishing_queue_backend" where
  "settle b =
     (if phase b = Draining \<and> done_backend (out_buf b = []) b
      then b\<lparr>phase := Terminal_Completed\<rparr> else b)"

text \<open>
  Modelled from the spec: \<open>buffered_observable_impl::shutdown\<close> is missing from the
  sources. The specification has it request the end of the adapter, deferred until
  \<open>done()\<close> holds.
\<close>

definition shutdown :: "('a, 'e) publishing_queue_backend \<Rightarrow> ('a, 'e) publishing_queue_backend" where
  "shutdown b = (if terminal b then b else settle (b\<lparr>phase := Draining\<rparr>))"

text \<open>
  Modelled from the spec: \<open>buffered_observable_impl::try_push\<close> is missing from the
  sources. The specification has it call \<open>pull(n)\<close> for the outstanding demand \<open>n\<close>, never
  with \<open>n = 0\<close>, and has no pulls or emissions in a terminal state.
\<close>

definition super_try_push ::
    "bool \<Rightarrow> ('a, 'e) publishing_queue_backend \<Rightarrow> error + ('a, 'e) publishing_queue_backend" where
  "super_try_push runtime_checks b =
     (if terminal b \<or> requested b = 0 then Inr b
      else (case pull runtime_checks b (requested b) of
              Inl e \<Rightarrow> Inl e
            | Inr b' \<Rightarrow> Inr (settle (emit b'))))"

text \<open>
  Modelled from the spec: \<open>buffered_observable_impl::on_request\<close> is missing from the
  sources. The specification has it add to the outstanding demand and then try to pull.
\<close>

definition super_on_request ::
    "bool \<Rightarrow> nat \<Rightarrow> ('a, 'e) publishing_queue_backend \<Rightarrow> error + ('a, 'e) publishing_queue_backend" where
  "super_on_request runtime_checks n b =
     (if terminal b then Inr b
      else super_try_push runtime_checks (b\<lparr>requested := requested b + n\<rparr>))"

text \<open>The hooks of the adapter, as the source writes them.\<close>

definition on_event ::
    "bool \<Rightarrow> ('a, 'e) publishing_queue_backend \<Rightarrow> error + ('a, 'e) publishing_queue_backend" where
  "on_event runtime_checks b = super_try_push runtime_checks b"

definition on_close ::
    "bool \<Rightarrow> ('a, 'e) publishing_queue_backend \<Rightarrow> error + ('a, 'e) publishing_queue_backend" where
  "on_close runtime_checks b =
     (case super_try_push runtime_checks b of
        Inl e \<Rightarrow> Inl e
      | Inr b' \<Rightarrow> Inr (shutdown b'))"

definition on_abort ::
    "'e \<Rightarrow> ('a, 'e) publishing_queue_backend \<Rightarrow> ('a, 'e) publishing_queue_backend" where
  "on_abort reason b = abort reason b"

definition on_request ::
    "bool \<Rightarrow> nat \<Rightarrow> ('a, 'e) publishing_queue_backend \<Rightarrow> error + ('a, 'e) publishing_queue_backend" where
  "on_request runtime_checks n b = super_on_request runtime_checks n b"

text \<open>A run of the adapter on its worker: the hooks invoked one after the other.\<close>

datatype 'e hook = OnEvent | OnClose | OnAbort 'e | OnRequest nat

fun run_hook ::
    "bool \<Rightarrow> ('a, 'e) publishing_queue_backend \<Rightarrow> 'e hook \<Rightarrow> error + ('a, 'e) publishing_queue_backend" where
  "run_hook runtime_checks b OnEvent = on_event runtime_checks b"
| "run_hook runtime_checks b OnClose = on_close runtime_checks b"
| "run_hook runtime_checks b (OnAbort reason) = Inr (on_abort reason b)"
| "run_hook runtime_checks b (OnRequest n) = on_request runtime_checks n b"

fun run_hooks ::
    "bool \<Rightarrow> ('a, 'e) publishing_queue_backend \<Rightarrow> 'e hook list \<Rightarrow> error + ('a, 'e) publishing_queue_backend" where
  "run_hooks runtime_checks b [] = Inr b"
| "run_hooks runtime_checks b (h # hs) =
     (case run_hook runtime_checks b h of
        Inl e \<Rightarrow> Inl e
      | Inr b' \<Rightarrow> run_hooks runtime_checks b' hs)"

section \<open>Sequences of operations on one queue\<close>

text \<open>
  The lock serialises the calls of all threads, so an interleaving is a list of
  operations. \<open>run\<close> returns the \<open>added\<close> flag of every \<open>try_push\<close>, the batch of every
  drain, and the queue at the end.
\<close>

datatype 'a op = TryPush 'a | DrainUpTo nat

fun run :: "'a queue \<Rightarrow> 'a op list \<Rightarrow> bool list \<times> 'a list list \<times> 'a queue" where
  "run q [] = ([], [], q)"
| "run q (TryPush v # ops) =
     (case try_push q v of
        ((added, do_notify), q') \<Rightarrow>
          (case run q' ops of (accepted, batches, q'') \<Rightarrow> (added # accepted, batches, q'')))"
| "run q (DrainUpTo n # ops) =
     (case drain_up_to q n of
        (items, q') \<Rightarrow>
          (case run q' ops of (accepted, batches, q'') \<Rightarrow> (accepted, items # batches, q'')))"

text \<open>At the moment of every push of the run the buffer is shorter than the capacity.\<close>

fun pushes_below_capacity :: "'a queue \<Rightarrow> 'a op list \<Rightarrow> bool" where
  "pushes_below_capacity q [] = True"
| "pushes_below_capacity q (TryPush v # ops) =
     (length (buf q) < capacity q \<and> pushes_below_capacity (snd (try_push q v)) ops)"
| "pushes_below_capacity q (DrainUpTo n # ops) =
     pushes_below_capacity (snd (drain_up_to q n)) ops"

fun pushed :: "'a op list \<Rightarrow> 'a list" where
  "pushed [] = []"
| "pushed (TryPush v # ops) = v # pushed ops"
| "pushed (DrainUpTo n # ops) = pushed ops"

definition buffer_invariant :: "'a queue \<Rightarrow> bool" where
  "buffer_invariant q = (length (buf q) \<le> capacity q)"

section \<open>Properties of the shared buffer\<close>

text \<open>
  C1, as amended. \<open>try_push\<close> returns \<open>(true, true)\<close> and appends the value when the item
  sequence is empty; returns \<open>(true, false)\<close> and appends when the sequence is non-empty
  and shorter than the capacity; returns \<open>(false, false)\<close> and leaves the queue as it was
  when the sequence is non-empty and its length equals the capacity (and likewise when it
  exceeds it). It is a function: every call returns, none waits.
\<close>

theorem try_push_cases:
  "(buf q = [] \<longrightarrow> try_push q v = ((True, True), q\<lparr>buf := buf q @ [v]\<rparr>)) \<and>
   (buf q \<noteq> [] \<and> length (buf q) < capacity q \<longrightarrow>
      try_push q v = ((True, False), q\<lparr>buf := buf q @ [v]\<rparr>)) \<and>
   (buf q \<noteq> [] \<and> length (buf q) = capacity q \<longrightarrow> try_push q v = ((False, False), q)) \<and>
   (capacity q < length (buf q) \<longrightarrow> try_push q v = ((False, False), q))"
  by (auto simp: try_push_def)

theorem try_push_cases_witness:
  "try_push \<lparr>capacity = 2, buf = [], notify_all_calls = 0\<rparr> (7::nat)
     = ((True, True), \<lparr>capacity = 2, buf = [7], notify_all_calls = 0\<rparr>) \<and>
   try_push \<lparr>capacity = 2, buf = [5], notify_all_calls = 0\<rparr> (7::nat)
     = ((True, False), \<lparr>capacity = 2, buf = [5, 7], notify_all_calls = 0\<rparr>) \<and>
   try_push \<lparr>capacity = 2, buf = [5, 6], notify_all_calls = 0\<rparr> (7::nat)
     = ((False, False), \<lparr>capacity = 2, buf = [5, 6], notify_all_calls = 0\<rparr>) \<and>
   try_push \<lparr>capacity = 1, buf = [5, 6], notify_all_calls = 0\<rparr> (7::nat)
     = ((False, False), \<lparr>capacity = 1, buf = [5, 6], notify_all_calls = 0\<rparr>)"
  using try_push_cases [of "\<lparr>capacity = 2, buf = [], notify_all_calls = 0\<rparr>" "7::nat"]
        try_push_cases [of "\<lparr>capacity = 2, buf = [5], notify_all_calls = 0\<rparr>" "7::nat"]
        try_push_cases [of "\<lparr>capacity = 2, buf = [5, 6], notify_all_calls = 0\<rparr>" "7::nat"]
        try_push_cases [of "\<lparr>capacity = 1, buf = [5, 6], notify_all_calls = 0\<rparr>" "7::nat"]
  by simp

text \<open>
  C1 as stated fails for a queue of capacity 0: the empty buffer has length equal to
  the capacity, yet the value is appended and \<open>(true, true)\<close> is returned.
\<close>

theorem try_push_full_counterexample:
  "length (buf \<lparr>capacity = 0, buf = ([]::nat list), notify_all_calls = 0\<rparr>)
     = capacity \<lparr>capacity = 0, buf = ([]::nat list), notify_all_calls = 0\<rparr> \<and>
   try_push \<lparr>capacity = 0, buf = [], notify_all_calls = 0\<rparr> (7::nat)
     \<noteq> ((False, False), \<lparr>capacity = 0, buf = [], notify_all_calls = 0\<rparr>)"
  by (simp add: try_push_def)

section \<open>Facts about single operations\<close>

lemma buf_drain_up_to: "fst (drain_up_to q n) @ buf (snd (drain_up_to q n)) = buf q"
  by (simp add: drain_up_to_def Let_def)

lemma capacity_drain_up_to: "capacity (snd (drain_up_to q n)) = capacity q"
  by (simp add: drain_up_to_def Let_def)

lemma capacity_try_push: "capacity (snd (try_push q v)) = capacity q"
  by (simp add: try_push_def)

lemma capacity_interfere: "capacity (interfere q i) = capacity q"
  by (cases i) (simp_all add: capacity_drain_up_to capacity_try_push)

lemma capacity_foldl_interfere: "capacity (foldl interfere q w) = capacity q"
  by (induction w arbitrary: q) (simp_all add: capacity_interfere)

lemma try_push_below_capacity:
  "length (buf q) < capacity q \<Longrightarrow>
   fst (fst (try_push q v)) \<and> buf (snd (try_push q v)) = buf q @ [v]"
  by (simp add: try_push_def)

lemma push_unfold:
  "push q v wakeups =
     (if fst (fst (try_push q v)) then Some (snd (fst (try_push q v)), snd (try_push q v))
      else (case wakeups of [] \<Rightarrow> None | w # ws \<Rightarrow> push (foldl interfere q w) v ws))"
  by (subst push.simps) (simp add: try_push_def)

section \<open>Draining\<close>

text \<open>
  C2. \<open>pull(n)\<close>, called as its contract demands (\<open>n > 0\<close>, or in a build where the
  assertion is compiled out), removes exactly the first \<open>min n (length items)\<close> items of
  the buffer, in order, and appends them to the outgoing buffer of the base: never more
  than \<open>n\<close> and never more than were present. \<open>notify_all\<close> is called on the condition
  variable if and only if at least one item was removed.
\<close>

theorem pull_drains:
  assumes "0 < n \<or> \<not> runtime_checks"
  shows "let q = backend_queue b; m = min n (length (buf q)); items = take m (buf q) in
           length items = m \<and> m \<le> n \<and> m \<le> length (buf q) \<and>
           drain_up_to q n
             = (items, q\<lparr>buf := drop m (buf q),
                         notify_all_calls := notify_all_calls q + (if items \<noteq> [] then 1 else 0)\<rparr>) \<and>
           pull runtime_checks b n
             = Inr (b\<lparr>backend_queue := snd (drain_up_to q n), out_buf := out_buf b @ items,
                      pull_calls := Suc (pull_calls b)\<rparr>)"
  using assms by (auto simp: pull_def drain_up_to_def Let_def)

theorem pull_drains_witness:
  "drain_up_to \<lparr>capacity = 4, buf = [1, 2, 3::nat], notify_all_calls = 0\<rparr> 2
     = ([1, 2], \<lparr>capacity = 4, buf = [3], notify_all_calls = 1\<rparr>) \<and>
   pull True \<lparr>backend_queue = \<lparr>capacity = 4, buf = [1, 2, 3::nat], notify_all_calls = 0\<rparr>,
              out_buf = [0], pull_calls = 0, requested = 0, delivered = [],
              phase = (Active :: unit phase)\<rparr> 2
     = Inr \<lparr>backend_queue = \<lparr>capacity = 4, buf = [3], notify_all_calls = 1\<rparr>,
            out_buf = [0, 1, 2], pull_calls = 1, requested = 0, delivered = [], phase = Active\<rparr> \<and>
   pull False \<lparr>backend_queue = \<lparr>capacity = 4, buf = [], notify_all_calls = 0\<rparr>,
              out_buf = [0::nat], pull_calls = 0, requested = 0, delivered = [],
              phase = (Active :: unit phase)\<rparr> 5
     = Inr \<lparr>backend_queue = \<lparr>capacity = 4, buf = [], notify_all_calls = 0\<rparr>,
            out_buf = [0], pull_calls = 1, requested = 0, delivered = [], phase = Active\<rparr>"
  using pull_drains [of 2 True
          "\<lparr>backend_queue = \<lparr>capacity = 4, buf = [1, 2, 3::nat], notify_all_calls = 0\<rparr>,
             out_buf = [0], pull_calls = 0, requested = 0, delivered = [],
             phase = (Active :: unit phase)\<rparr>"]
        pull_drains [of 5 False
          "\<lparr>backend_queue = \<lparr>capacity = 4, buf = [], notify_all_calls = 0\<rparr>,
             out_buf = [0::nat], pull_calls = 0, requested = 0, delivered = [],
             phase = (Active :: unit phase)\<rparr>"]
  by (simp add: Let_def)

section \<open>Blocking and non-blocking push\<close>

text \<open>
  C3. Whenever \<open>push\<close> finds the buffer not full, it appends at once, and the queue it
  leaves and the flag it returns are those of \<open>try_push\<close> on the same state; the flag is
  true exactly when the buffer was empty before the append. More generally \<open>push\<close> is
  \<open>try_push\<close> repeated at every wake-up until it is accepted.
\<close>

theorem push_mirrors_try_push:
  "(length (buf q) < capacity q \<longrightarrow>
      push q v wakeups = Some (snd (fst (try_push q v)), snd (try_push q v)) \<and>
      fst (fst (try_push q v)) \<and>
      snd (fst (try_push q v)) = (buf q = []) \<and>
      buf (snd (try_push q v)) = buf q @ [v]) \<and>
   push q v wakeups =
     (if fst (fst (try_push q v)) then Some (snd (fst (try_push q v)), snd (try_push q v))
      else (case wakeups of [] \<Rightarrow> None | w # ws \<Rightarrow> push (foldl interfere q w) v ws))"
  by (subst (1 2) push.simps) (simp add: try_push_def)

theorem push_mirrors_try_push_witness:
  "push \<lparr>capacity = 2, buf = [], notify_all_calls = 0\<rparr> (7::nat) []
     = Some (True, \<lparr>capacity = 2, buf = [7], notify_all_calls = 0\<rparr>) \<and>
   try_push \<lparr>capacity = 2, buf = [], notify_all_calls = 0\<rparr> (7::nat)
     = ((True, True), \<lparr>capacity = 2, buf = [7], notify_all_calls = 0\<rparr>) \<and>
   push \<lparr>capacity = 2, buf = [5], notify_all_calls = 0\<rparr> (7::nat) []
     = Some (False, \<lparr>capacity = 2, buf = [5, 7], notify_all_calls = 0\<rparr>) \<and>
   try_push \<lparr>capacity = 2, buf = [5], notify_all_calls = 0\<rparr> (7::nat)
     = ((True, False), \<lparr>capacity = 2, buf = [5, 7], notify_all_calls = 0\<rparr>)"
  using push_mirrors_try_push [of "\<lparr>capacity = 2, buf = [], notify_all_calls = 0\<rparr>" "7::nat" "[]"]
        push_mirrors_try_push [of "\<lparr>capacity = 2, buf = [5], notify_all_calls = 0\<rparr>" "7::nat" "[]"]
  by (simp add: try_push_def)

text \<open>
  C10. A queue of capacity 0 still accepts one item when it is empty: \<open>try_push\<close>
  returns \<open>(true, true)\<close> and \<open>push\<close> appends and returns without waiting, so the buffer
  then holds one item more than its capacity; a second item is refused by \<open>try_push\<close>
  and makes \<open>push\<close> wait. Whatever the capacity, \<open>push\<close> on an empty buffer never waits.
\<close>

theorem zero_capacity_accepts_one:
  "(capacity q = 0 \<and> buf q = [] \<longrightarrow>
      try_push q v = ((True, True), q\<lparr>buf := [v]\<rparr>) \<and>
      push q v wakeups = Some (True, q\<lparr>buf := [v]\<rparr>) \<and>
      length (buf (q\<lparr>buf := [v]\<rparr>)) = capacity (q\<lparr>buf := [v]\<rparr>) + 1 \<and>
      try_push (q\<lparr>buf := [v]\<rparr>) w = ((False, False), q\<lparr>buf := [v]\<rparr>) \<and>
      push (q\<lparr>buf := [v]\<rparr>) w [] = None) \<and>
   (buf q = [] \<longrightarrow> push q v wakeups = Some (True, q\<lparr>buf := [v]\<rparr>))"
  by (simp add: try_push_def push.simps)

theorem zero_capacity_accepts_one_witness:
  "try_push \<lparr>capacity = 0, buf = [], notify_all_calls = 0\<rparr> (7::nat)
     = ((True, True), \<lparr>capacity = 0, buf = [7], notify_all_calls = 0\<rparr>) \<and>
   push \<lparr>capacity = 0, buf = [], notify_all_calls = 0\<rparr> (7::nat) []
     = Some (True, \<lparr>capacity = 0, buf = [7], notify_all_calls = 0\<rparr>) \<and>
   try_push \<lparr>capacity = 0, buf = [7], notify_all_calls = 0\<rparr> (8::nat)
     = ((False, False), \<lparr>capacity = 0, buf = [7], notify_all_calls = 0\<rparr>) \<and>
   push \<lparr>capacity = 3, buf = [], notify_all_calls = 0\<rparr> (7::nat) []
     = Some (True, \<lparr>capacity = 3, buf = [7], notify_all_calls = 0\<rparr>)"
  using zero_capacity_accepts_one [of "\<lparr>capacity = 0, buf = [], notify_all_calls = 0\<rparr>" "7::nat" "[]" 8]
        zero_capacity_accepts_one [of "\<lparr>capacity = 3, buf = [], notify_all_calls = 0\<rparr>" "7::nat" "[]" 8]
  by simp

section \<open>The producer handle\<close>

text \<open>
  C4. A call of \<open>publishing_queue::try_push\<close> or \<open>publishing_queue::push\<close> invokes
  \<open>notify_event()\<close> exactly once when the queue operation reports that the item became
  the first one, and not at all otherwise; \<open>try_push\<close> returns the queue's \<open>added\<close> flag.
  A \<open>push\<close> that never returns notifies nobody.
\<close>

theorem producer_notifies_on_first_item:
  "publishing_queue_try_push pq v
     = (fst (fst (try_push (queue_ref pq) v)),
        pq\<lparr>queue_ref := snd (try_push (queue_ref pq) v),
           notify_events := notify_events pq + (if snd (fst (try_push (queue_ref pq) v)) then 1 else 0)\<rparr>) \<and>
   publishing_queue_push pq v wakeups
     = map_option
         (\<lambda>(became_first_item, q').
            pq\<lparr>queue_ref := q',
               notify_events := notify_events pq + (if became_first_item then 1 else 0)\<rparr>)
         (push (queue_ref pq) v wakeups)"
  by (auto simp: publishing_queue_try_push_def publishing_queue_push_def notify_event_def
           split: prod.splits option.splits)

theorem producer_notifies_on_first_item_witness:
  "publishing_queue_try_push
     \<lparr>queue_ref = \<lparr>capacity = 2, buf = [], notify_all_calls = 0\<rparr>, notify_events = 0\<rparr> (7::nat)
     = (True, \<lparr>queue_ref = \<lparr>capacity = 2, buf = [7], notify_all_calls = 0\<rparr>, notify_events = 1\<rparr>) \<and>
   publishing_queue_push
     \<lparr>queue_ref = \<lparr>capacity = 2, buf = [5], notify_all_calls = 0\<rparr>, notify_events = 0\<rparr> (7::nat) []
     = Some \<lparr>queue_ref = \<lparr>capacity = 2, buf = [5, 7], notify_all_calls = 0\<rparr>, notify_events = 0\<rparr>"
  using producer_notifies_on_first_item
          [of "\<lparr>queue_ref = \<lparr>capacity = 2, buf = [], notify_all_calls = 0\<rparr>, notify_events = 0\<rparr>"
              "7::nat" "[]"]
        producer_notifies_on_first_item
          [of "\<lparr>queue_ref = \<lparr>capacity = 2, buf = [5], notify_all_calls = 0\<rparr>, notify_events = 0\<rparr>"
              "7::nat" "[]"]
  by (simp add: try_push_def push.simps)

section \<open>The consumer adapter\<close>

text \<open>
  C5. \<open>done()\<close> is false whenever the shared buffer is non-empty, whatever the base
  says, and it is true exactly when \<open>super::done()\<close> is true and the shared buffer is
  empty.
\<close>

theorem done_backend_iff:
  "(buf (backend_queue b) \<noteq> [] \<longrightarrow> \<not> done_backend super_done b) \<and>
   done_backend super_done b = (super_done \<and> buf (backend_queue b) = [])"
  by (simp add: done_backend_def)

theorem done_backend_iff_witness:
  "\<not> done_backend True
       \<lparr>backend_queue = \<lparr>capacity = 4, buf = [1::nat], notify_all_calls = 0\<rparr>,
        out_buf = [], pull_calls = 0, requested = 0, delivered = [],
        phase = (Draining :: unit phase)\<rparr> \<and>
   done_backend True
       \<lparr>backend_queue = \<lparr>capacity = 4, buf = ([]::nat list), notify_all_calls = 0\<rparr>,
        out_buf = [], pull_calls = 0, requested = 0, delivered = [],
        phase = (Draining :: unit phase)\<rparr>"
  using done_backend_iff [of "\<lparr>backend_queue = \<lparr>capacity = 4, buf = [1::nat], notify_all_calls = 0\<rparr>,
          out_buf = [], pull_calls = 0, requested = 0, delivered = [],
          phase = (Draining :: unit phase)\<rparr>" True]
        done_backend_iff [of "\<lparr>backend_queue = \<lparr>capacity = 4, buf = ([]::nat list), notify_all_calls = 0\<rparr>,
          out_buf = [], pull_calls = 0, requested = 0, delivered = [],
          phase = (Draining :: unit phase)\<rparr>" True]
  by simp

lemma run_hook_terminal: "terminal b \<Longrightarrow> run_hook runtime_checks b h = Inr b"
  by (cases h)
     (simp_all add: on_event_def on_close_def on_abort_def on_request_def super_try_push_def
        super_on_request_def shutdown_def abort_def)

lemma run_hooks_terminal: "terminal b \<Longrightarrow> run_hooks runtime_checks b hs = Inr b"
  by (induction hs) (simp_all add: run_hook_terminal)

text \<open>
  While the adapter is active the hooks do pull: with a demand of two, \<open>on_event\<close> takes
  two of three buffered items and hands them downstream.
\<close>

lemma on_event_active_example:
  "on_event True
     \<lparr>backend_queue = \<lparr>capacity = 4, buf = [1, 2, 3::nat], notify_all_calls = 0\<rparr>,
      out_buf = [], pull_calls = 0, requested = 2, delivered = [], phase = (Active :: unit phase)\<rparr>
     = Inr \<lparr>backend_queue = \<lparr>capacity = 4, buf = [3], notify_all_calls = 1\<rparr>,
            out_buf = [], pull_calls = 1, requested = 0, delivered = [1, 2], phase = Active\<rparr>"
  by (simp add: on_event_def super_try_push_def terminal_def pull_def drain_up_to_def emit_def
        settle_def)

text \<open>
  C8. \<open>on_abort(reason)\<close> puts the adapter into a terminal state at once, and from an
  adapter that was not yet terminal this is the aborted state carrying the reason, with
  the staged items of the base discarded. \<open>on_abort\<close> itself does not pull, and no
  sequence of hooks invoked afterwards pulls, delivers or changes anything: the items
  left in the shared buffer stay there undelivered.
\<close>

theorem on_abort_terminates:
  "terminal (on_abort reason b) \<and>
   backend_queue (on_abort reason b) = backend_queue b \<and>
   pull_calls (on_abort reason b) = pull_calls b \<and>
   delivered (on_abort reason b) = delivered b \<and>
   run_hooks runtime_checks (on_abort reason b) hs = Inr (on_abort reason b) \<and>
   (\<not> terminal b \<longrightarrow>
      phase (on_abort reason b) = Terminal_Aborted reason \<and> out_buf (on_abort reason b) = [])"
proof -
  have t: "terminal (on_abort reason b)"
    by (simp add: on_abort_def abort_def terminal_def)
  from run_hooks_terminal [OF t] t show ?thesis
    by (simp add: on_abort_def abort_def)
qed

theorem on_abort_terminates_witness:
  "on_abort (42::nat)
     \<lparr>backend_queue = \<lparr>capacity = 4, buf = [1, 2, 3::nat], notify_all_calls = 0\<rparr>,
      out_buf = [0], pull_calls = 1, requested = 5, delivered = [], phase = Active\<rparr>
     = \<lparr>backend_queue = \<lparr>capacity = 4, buf = [1, 2, 3], notify_all_calls = 0\<rparr>,
        out_buf = [], pull_calls = 1, requested = 5, delivered = [], phase = Terminal_Aborted 42\<rparr> \<and>
   run_hooks True
     \<lparr>backend_queue = \<lparr>capacity = 4, buf = [1, 2, 3::nat], notify_all_calls = 0\<rparr>,
      out_buf = [], pull_calls = 1, requested = 5, delivered = [], phase = Terminal_Aborted (42::nat)\<rparr>
     [OnEvent, OnRequest 2, OnClose, OnAbort 7]
     = Inr \<lparr>backend_queue = \<lparr>capacity = 4, buf = [1, 2, 3], notify_all_calls = 0\<rparr>,
        out_buf = [], pull_calls = 1, requested = 5, delivered = [], phase = Terminal_Aborted 42\<rparr>"
  using on_abort_terminates [of 42
          "\<lparr>backend_queue = \<lparr>capacity = 4, buf = [1, 2, 3::nat], notify_all_calls = 0\<rparr>,
            out_buf = [0::nat], pull_calls = 1, requested = 5, delivered = [],
            phase = (Active :: nat phase)\<rparr>"
          True "[OnEvent, OnRequest 2, OnClose, OnAbort 7]"]
  by (simp add: on_abort_def abort_def terminal_def)

text \<open>
  What the constructor does refuse is a capacity that the vector cannot reserve; this
  has nothing to do with the capacity being zero.
\<close>

lemma queue_ctor_failures:
  "(max_size < cap \<longrightarrow> queue_ctor max_size alloc_ok cap = Inl LengthError) \<and>
   (cap \<le> max_size \<and> 0 < cap \<and> \<not> alloc_ok \<longrightarrow> queue_ctor max_size alloc_ok cap = Inl BadAlloc) \<and>
   (cap \<le> max_size \<and> alloc_ok \<longrightarrow>
      queue_ctor max_size alloc_ok cap = Inr \<lparr>capacity = cap, buf = [], notify_all_calls = 0\<rparr>)"
  by (simp add: queue_ctor_def)

text \<open>
  C9, as amended. Calling \<open>pull\<close> with zero requested items is caught at the call by
  \<open>CAF_ASSERT(n > 0)\<close> in a build with runtime checks (without them the call drains
  nothing). Constructing a queue with zero capacity is not rejected: whatever the
  vector's maximal size and the state of the allocator, construction with capacity 0
  succeeds and yields an empty buffer of capacity 0.
\<close>

theorem misuse_checks:
  "pull True b 0 = Inl AssertionFailed \<and>
   pull False b 0 = Inr (b\<lparr>pull_calls := Suc (pull_calls b)\<rparr>) \<and>
   queue_ctor max_size alloc_ok 0 = Inr \<lparr>capacity = 0, buf = [], notify_all_calls = 0\<rparr>"
  by (simp add: pull_def drain_up_to_def queue_ctor_def)

text \<open>
  C9 as stated fails: construction with capacity 0 succeeds (here with the maximal size
  of a vector of 8-byte elements on a 64-bit platform, \<open>2^60 - 1\<close>).
\<close>

theorem misuse_checks_counterexample:
  "queue_ctor 1152921504606846975 True 0
     = Inr \<lparr>capacity = 0, buf = ([]::nat list), notify_all_calls = 0\<rparr> \<and>
   \<not> isl (queue_ctor 1152921504606846975 True 0 :: error + nat queue)"
  by (simp add: queue_ctor_def)

section \<open>Sequences of operations\<close>

lemma run_fifo_aux:
  "pushes_below_capacity q ops \<Longrightarrow>
   fst (run q ops) = replicate (length (pushed ops)) True \<and>
   concat (fst (snd (run q ops))) @ buf (snd (snd (run q ops))) = buf q @ pushed ops"
proof (induction q ops rule: run.induct)
  case (1 q)
  show ?case by simp
next
  case (2 q v ops)
  obtain added do_notify q' where tp: "try_push q v = ((added, do_notify), q')"
    by (metis prod.exhaust)
  from "2.prems" have below: "length (buf q) < capacity q" and rest: "pushes_below_capacity q' ops"
    by (simp_all add: tp)
  from try_push_below_capacity [OF below, of v] tp have added and q': "buf q' = buf q @ [v]"
    by simp_all
  from "2.IH" [OF tp [symmetric] refl rest] q' \<open>added\<close> show ?case
    by (auto simp: tp split: prod.splits)
next
  case (3 q n ops)
  obtain items q' where d: "drain_up_to q n = (items, q')"
    by (metis prod.exhaust)
  from "3.prems" have rest: "pushes_below_capacity q' ops"
    by (simp add: d)
  from buf_drain_up_to [of q n] d have "items @ buf q' = buf q"
    by simp
  with "3.IH" [OF d [symmetric] rest] show ?case
    by (auto simp: d split: prod.splits)
qed

text \<open>
  The scenario of the specification with capacity 2: \<open>A\<close> and \<open>B\<close> are accepted, \<open>C\<close> is
  refused, a drain of one item returns \<open>A\<close>, \<open>C\<close> is then accepted, and a drain of up to
  five items returns \<open>B\<close> and \<open>C\<close>.
\<close>

lemma run_capacity_two_example:
  "run \<lparr>capacity = 2, buf = [], notify_all_calls = 0\<rparr>
     [TryPush ''A'', TryPush ''B'', TryPush ''C'', DrainUpTo 1, TryPush ''C'', DrainUpTo 5]
     = ([True, True, False, True], [[''A''], [''B'', ''C'']],
        \<lparr>capacity = 2, buf = [], notify_all_calls = 2\<rparr>)"
  by (simp add: try_push_def drain_up_to_def)

text \<open>
  C6, as amended. In every sequence of \<open>try_push\<close> and drain operations in which the
  buffer is shorter than the capacity at the moment of each push, every \<open>try_push\<close> is
  accepted, and the drained batches, concatenated and followed by what is still in the
  buffer at the end, are the items the buffer held at the start followed by the pushed
  items in the order they were pushed. So on a buffer that starts and ends empty the
  concatenation of the drained batches is exactly the sequence of pushed items.
\<close>

theorem run_fifo:
  assumes "pushes_below_capacity q ops" and "run q ops = (accepted, batches, q')"
  shows "accepted = replicate (length (pushed ops)) True \<and>
         concat batches @ buf q' = buf q @ pushed ops \<and>
         (buf q = [] \<and> buf q' = [] \<longrightarrow> concat batches = pushed ops)"
  using run_fifo_aux [OF assms(1)] assms(2) by auto

theorem run_fifo_witness:
  "pushes_below_capacity \<lparr>capacity = 2, buf = [], notify_all_calls = 0\<rparr>
     [TryPush (1::nat), TryPush 2, DrainUpTo 1, TryPush 3, DrainUpTo 5] \<and>
   run \<lparr>capacity = 2, buf = [], notify_all_calls = 0\<rparr>
     [TryPush (1::nat), TryPush 2, DrainUpTo 1, TryPush 3, DrainUpTo 5]
     = ([True, True, True], [[1], [2, 3]], \<lparr>capacity = 2, buf = [], notify_all_calls = 2\<rparr>) \<and>
   concat [[1], [2, 3]]
     = pushed [TryPush (1::nat), TryPush 2, DrainUpTo 1, TryPush 3, DrainUpTo 5]"
proof -
  have below: "pushes_below_capacity \<lparr>capacity = 2, buf = [], notify_all_calls = 0\<rparr>
     [TryPush (1::nat), TryPush 2, DrainUpTo 1, TryPush 3, DrainUpTo 5]"
    by (simp add: try_push_def drain_up_to_def)
  have r: "run \<lparr>capacity = 2, buf = [], notify_all_calls = 0\<rparr>
     [TryPush (1::nat), TryPush 2, DrainUpTo 1, TryPush 3, DrainUpTo 5]
     = ([True, True, True], [[1], [2, 3]], \<lparr>capacity = 2, buf = [], notify_all_calls = 2\<rparr>)"
    by (simp add: try_push_def drain_up_to_def)
  from run_fifo [OF below r] below r show ?thesis
    by simp
qed

text \<open>
  C6 as stated fails when an accepted item is still in the buffer at the end: after one
  push and no drain nothing has been drained, yet one item has been pushed.
\<close>

theorem run_fifo_counterexample:
  "pushes_below_capacity \<lparr>capacity = 2, buf = [], notify_all_calls = 0\<rparr> [TryPush (1::nat)] \<and>
   run \<lparr>capacity = 2, buf = [], notify_all_calls = 0\<rparr> [TryPush (1::nat)]
     = ([True], [], \<lparr>capacity = 2, buf = [1], notify_all_calls = 0\<rparr>) \<and>
   concat ([] :: nat list list) \<noteq> pushed [TryPush (1::nat)]"
  by (simp add: try_push_def)

section \<open>The length invariant\<close>

lemma invariant_try_push:
  "1 \<le> capacity q \<Longrightarrow> buffer_invariant q \<Longrightarrow> buffer_invariant (snd (try_push q v))"
  by (auto simp: buffer_invariant_def try_push_def)

lemma invariant_drain_up_to:
  "buffer_invariant q \<Longrightarrow> buffer_invariant (snd (drain_up_to q n))"
  by (auto simp: buffer_invariant_def drain_up_to_def Let_def)

lemma invariant_interfere:
  "1 \<le> capacity q \<Longrightarrow> buffer_invariant q \<Longrightarrow> buffer_invariant (interfere q i)"
  by (cases i) (simp_all add: invariant_drain_up_to invariant_try_push)

lemma invariant_foldl_interfere:
  "1 \<le> capacity q \<Longrightarrow> buffer_invariant q \<Longrightarrow> buffer_invariant (foldl interfere q w)"
  by (induction w arbitrary: q) (simp_all add: invariant_interfere capacity_interfere)

lemma invariant_push:
  "1 \<le> capacity q \<Longrightarrow> buffer_invariant q \<Longrightarrow> push q v wakeups = Some r \<Longrightarrow>
   buffer_invariant (snd r) \<and> capacity (snd r) = capacity q"
proof (induction wakeups arbitrary: q)
  case Nil
  then show ?case
    by (subst (asm) push_unfold) (auto simp: invariant_try_push capacity_try_push split: if_splits)
next
  case (Cons w ws)
  show ?case
  proof (cases "fst (fst (try_push q v))")
    case True
    with Cons.prems show ?thesis
      by (subst (asm) push_unfold) (auto simp: invariant_try_push capacity_try_push)
  next
    case False
    with Cons.prems have "push (foldl interfere q w) v ws = Some r"
      by (subst (asm) push_unfold) simp
    with Cons.IH [of "foldl interfere q w"] Cons.prems show ?thesis
      by (simp add: invariant_foldl_interfere capacity_foldl_interfere)
  qed
qed

text \<open>
  C7. For a queue of capacity at least 1 whose buffer is no longer than the capacity,
  the same holds after \<open>try_push\<close>, after a \<open>push\<close> that returns (whatever the other
  threads drained and pushed while it waited), and after a drain, alone or as part of
  \<open>pull\<close>; none of them changes the capacity.
\<close>

theorem invariant_preserved:
  assumes "1 \<le> capacity q" and "buffer_invariant q"
  shows "buffer_invariant (snd (try_push q v)) \<and> capacity (snd (try_push q v)) = capacity q \<and>
         (push q v wakeups = Some r \<longrightarrow>
            buffer_invariant (snd r) \<and> capacity (snd r) = capacity q) \<and>
         buffer_invariant (snd (drain_up_to q n)) \<and> capacity (snd (drain_up_to q n)) = capacity q \<and>
         (backend_queue b = q \<and> pull runtime_checks b n = Inr b' \<longrightarrow>
            buffer_invariant (backend_queue b') \<and> capacity (backend_queue b') = capacity q)"
proof -
  have "backend_queue b' = snd (drain_up_to q n)"
    if "backend_queue b = q" and "pull runtime_checks b n = Inr b'"
    using that by (auto simp: pull_def split: if_splits prod.splits)
  with assms show ?thesis
    using invariant_push [of q v wakeups r]
    by (simp add: invariant_try_push capacity_try_push invariant_drain_up_to capacity_drain_up_to)
qed

theorem invariant_preserved_witness:
  "buffer_invariant (snd (try_push \<lparr>capacity = 1, buf = [], notify_all_calls = 0\<rparr> (7::nat))) \<and>
   push \<lparr>capacity = 1, buf = [5], notify_all_calls = 0\<rparr> (7::nat) [[Drained 1]]
     = Some (True, \<lparr>capacity = 1, buf = [7], notify_all_calls = 1\<rparr>) \<and>
   buffer_invariant \<lparr>capacity = 1, buf = [7::nat], notify_all_calls = 1\<rparr> \<and>
   pull True \<lparr>backend_queue = \<lparr>capacity = 1, buf = [5::nat], notify_all_calls = 0\<rparr>, out_buf = [],
              pull_calls = 0, requested = 0, delivered = [], phase = (Active :: unit phase)\<rparr> 1
     = Inr \<lparr>backend_queue = \<lparr>capacity = 1, buf = [], notify_all_calls = 1\<rparr>, out_buf = [5],
            pull_calls = 1, requested = 0, delivered = [], phase = Active\<rparr> \<and>
   buffer_invariant \<lparr>capacity = 1, buf = ([]::nat list), notify_all_calls = 1\<rparr>"
  using invariant_preserved [of "\<lparr>capacity = 1, buf = [], notify_all_calls = 0\<rparr>" "7::nat"]
        invariant_preserved [of "\<lparr>capacity = 1, buf = [5], notify_all_calls = 0\<rparr>" "7::nat"
          "[[Drained 1]]" "(True, \<lparr>capacity = 1, buf = [7], notify_all_calls = 1\<rparr>)" 1
          "\<lparr>backend_queue = \<lparr>capacity = 1, buf = [5::nat], notify_all_calls = 0\<rparr>, out_buf = [],
              pull_calls = 0, requested = 0, delivered = [], phase = (Active :: unit phase)\<rparr>"
          True
          "\<lparr>backend_queue = \<lparr>capacity = 1, buf = [], notify_all_calls = 1\<rparr>, out_buf = [5],
            pull_calls = 1, requested = 0, delivered = [], phase = Active\<rparr>"]
  by (simp add: buffer_invariant_def try_push_def push.simps drain_up_to_def pull_def)

end
